theory Spec2Isabelle
  imports Main "HOL-Library.List_Lexorder" "HOL-Library.Char_ord"
begin

section \<open>The C\# backend of xgen: data model\<close>

text \<open>
  Go strings are byte sequences, modelled as \<^typ>\<open>string\<close> (a list of 8-bit characters);
  the order on strings is the bytewise lexicographic one, as Go's \<open><\<close> and
  \<open>strings.Compare\<close>. The struct declarations of the schema constructs are not part of
  the two source files; each record below has the fields the generator reads.
\<close>

record Element =
  Doc :: string
  Name :: string
  Type :: string
  Plural :: bool
  Optional :: bool

record Attribute =
  Name :: string
  Doc :: string
  Type :: string
  Plural :: bool
  Optional :: bool

record AttributeGroup =
  Doc :: string
  Name :: string
  Ref :: string
  Attributes :: "Attribute list"

text \<open>A group holds nested groups, so it is a datatype with selectors.\<close>

datatype Group = Group
  (Doc: string) (Name: string) (Elements: "Element list") (Groups: "Group list")
  (Plural: bool) (Ref: string)

text \<open>
  \<open>MemberTypes\<close> is a Go \<open>map[string]string\<close>. Ranging over a Go map visits the entries
  in an unspecified order, so the map is an association list with distinct keys whose
  order is the order in which one particular \<open>range\<close> visits the entries.
\<close>

record SimpleType =
  Doc :: string
  Name :: string
  Base :: string
  List :: bool
  Union :: bool
  MemberTypes :: "(string \<times> string) list"

record ComplexType =
  Doc :: string
  Name :: string
  Base :: string
  Elements :: "Element list"
  Attributes :: "Attribute list"
  Groups :: "Group list"
  AttributeGroup :: "AttributeGroup list"

text \<open>
  \<open>ProtoTree\<close> is a \<open>[]interface{}\<close>. An entry is a pointer to one of the six constructs,
  or nil.
\<close>

datatype construct =
    SimpleTypeP SimpleType
  | ComplexTypeP ComplexType
  | ElementP Element
  | AttributeP Attribute
  | GroupP Group
  | AttributeGroupP AttributeGroup
  | NilP

record CodeGenerator =
  File :: string
  Package :: string
  Field :: string
  StructAST :: "string \<rightharpoonup> string"
  ProtoTree :: "construct list"

section \<open>String helpers of the Go standard library\<close>

definition tab :: string where "tab = [CHR 0x09]"
definition nl :: string where "nl = [CHR 0x0A]"
definition dquote :: string where "dquote = [CHR 0x22]"

text \<open>\<open>strings.Split(s, sep)\<close> for a one-byte separator: never empty, \<open>[""]\<close> on \<open>""\<close>.\<close>

fun strings_Split :: "string \<Rightarrow> char \<Rightarrow> string list" where
  "strings_Split [] sep = [[]]"
| "strings_Split (c # cs) sep =
     (if c = sep then [] # strings_Split cs sep
      else (case strings_Split cs sep of
              [] \<Rightarrow> [[c]]
            | p # ps \<Rightarrow> (c # p) # ps))"

text \<open>\<open>strings.Replace(s, old, new, -1)\<close> and a \<open>strings.Replacer\<close> for a one-byte \<open>old\<close>.\<close>

definition strings_Replace :: "string \<Rightarrow> char \<Rightarrow> string \<Rightarrow> string" where
  "strings_Replace s old new = concat (map (\<lambda>c. if c = old then new else [c]) s)"

definition strings_HasSuffix :: "string \<Rightarrow> string \<Rightarrow> bool" where
  "strings_HasSuffix s suffix \<longleftrightarrow>
     length suffix \<le> length s \<and> drop (length s - length suffix) s = suffix"

text \<open>The verb \<open>%d\<close> of \<open>fmt.Sprintf\<close> on a non-negative count.\<close>

definition digit_char :: "nat \<Rightarrow> char" where
  "digit_char d = ''0123456789'' ! d"

function itoa :: "nat \<Rightarrow> string" where
  "itoa n = (if n < 10 then [digit_char n] else itoa (n div 10) @ [digit_char (n mod 10)])"
  by pat_completeness auto
termination
  by (relation "measure id") auto

declare itoa.simps [simp del]

text \<open>
  \<open>unicode.ToUpper\<close> on the first rune. On an ASCII byte it maps \<open>a\<close>..\<open>z\<close> to
  \<open>A\<close>..\<open>Z\<close> and keeps every other byte; the Unicode case tables and the UTF-8
  re-encoding that Go applies to a name with bytes above \<open>0x7F\<close> belong to the standard
  library and are outside this model, which keeps such bytes as they are. The general
  theorems below hold for any function in the place of \<open>ToTitle\<close>: their proofs never
  unfold it. Only the sample constructs, whose names are ASCII, are evaluated with it.
\<close>

definition unicode_ToUpper :: "char \<Rightarrow> char" where
  "unicode_ToUpper c =
     (case map_of (zip ''abcdefghijklmnopqrstuvwxyz'' ''ABCDEFGHIJKLMNOPQRSTUVWXYZ'') c of
        Some u \<Rightarrow> u
      | None \<Rightarrow> c)"

section \<open>utils.go\<close>

definition copyright :: string where
  "copyright = ''// Code generated by xgen. DO NOT EDIT.''"

fun ToTitle :: "string \<Rightarrow> string" where
  "ToTitle [] = []"
| "ToTitle (r # val) = unicode_ToUpper r # val"

definition MakeFirstUpperCase :: "string \<Rightarrow> string" where
  "MakeFirstUpperCase s = ToTitle s"

fun getBasefromSimpleType :: "string \<Rightarrow> construct list \<Rightarrow> string" where
  "getBasefromSimpleType name [] = name"
| "getBasefromSimpleType name (SimpleTypeP v # XSDSchema) =
     (if \<not> SimpleType.List v \<and> \<not> SimpleType.Union v \<and> SimpleType.Name v = name
      then SimpleType.Base v else getBasefromSimpleType name XSDSchema)"
| "getBasefromSimpleType name (AttributeP v # XSDSchema) =
     (if Attribute.Name v = name then Attribute.Type v
      else getBasefromSimpleType name XSDSchema)"
| "getBasefromSimpleType name (ElementP v # XSDSchema) =
     (if Element.Name v = name then Element.Type v
      else getBasefromSimpleType name XSDSchema)"
| "getBasefromSimpleType name (_ # XSDSchema) = getBasefromSimpleType name XSDSchema"

definition trimNSPrefix :: "string \<Rightarrow> string" where
  "trimNSPrefix str =
     (let split = strings_Split str (CHR '':'')
      in if length split = 2 then split ! 1 else str)"

definition genFieldComment :: "string \<Rightarrow> string \<Rightarrow> string \<Rightarrow> string" where
  "genFieldComment name doc prefix =
     (let docReplacer = (\<lambda>d. concat (map (\<lambda>c.
            if c = CHR 0x0A then nl @ prefix @ '' ''
            else if c = CHR 0x09 then [] else [c]) d))
      in if doc = [] then nl @ prefix @ '' '' @ name @ '' ...'' @ nl
         else nl @ prefix @ '' '' @ name @ '' is '' @ docReplacer doc @ nl)"

text \<open>\<open>kvPair\<close> as the pair (key, value); \<open>Less\<close> on two entries of a \<open>kvPairList\<close>.\<close>

type_synonym kvPair = "string \<times> string"

definition Less :: "kvPair \<Rightarrow> kvPair \<Rightarrow> bool" where
  "Less a b \<longleftrightarrow> snd a < snd b \<or> (snd a = snd b \<and> fst a > fst b)"

text \<open>
  \<open>sort.Sort\<close> is Go's library sort, driven by \<open>Less\<close> alone. It is modelled by
  insertion sort; on the entries of a map (distinct keys) \<open>Less\<close> is a strict total
  order, so every correct sort returns the same list (see \<open>sorted_by_Less_unique\<close>).
\<close>

fun insert_Less :: "kvPair \<Rightarrow> kvPair list \<Rightarrow> kvPair list" where
  "insert_Less x [] = [x]"
| "insert_Less x (y # ys) = (if Less y x then y # insert_Less x ys else x # y # ys)"

fun sort_Sort :: "kvPair list \<Rightarrow> kvPair list" where
  "sort_Sort [] = []"
| "sort_Sort (x # xs) = insert_Less x (sort_Sort xs)"

definition toSortedPairs :: "(string \<times> string) list \<Rightarrow> kvPair list" where
  "toSortedPairs toSort = sort_Sort toSort"

section \<open>genCSharp.go\<close>

definition csharpBuildInType :: "string list" where
  "csharpBuildInType =
     [''bool'', ''byte'', ''byte[]'', ''DateOnly'', ''DateTime'', ''decimal'', ''double'',
      ''float'', ''int'', ''List<string>'', ''long'', ''object'', ''short'', ''string'',
      ''TimeOnly'', ''uint'', ''ulong'', ''ushort'']"

definition csharpBuildInDefaultValues :: "(string \<times> string) list" where
  "csharpBuildInDefaultValues =
     [(''byte[]'', ''Array.Empty<byte>()''),
      (''List<string>'', ''new()''),
      (''object'', ''new()''),
      (''string'', dquote @ dquote)]"

text \<open>
  \<open>fieldNameCount\<close> is a package-level \<open>map[string]int\<close>; reading a missing key gives 0.
  The functions that touch it take it as an argument and return it.
\<close>

type_synonym counter = "string \<rightharpoonup> nat"

text \<open>
  Lines 75 to 83 of \<open>genCSharpFieldName\<close>: the identifier before the \<open>unique\<close> step.
  A call \<open>genCSharpFieldName(name, false)\<close> returns it and leaves the counter alone
  (\<open>genCSharpFieldName_False\<close>), so the loops below, which only make such calls, use
  \<open>normalizedName\<close>.
\<close>

definition normalizedName :: "string \<Rightarrow> string" where
  "normalizedName name =
     (let fieldName = concat (map MakeFirstUpperCase (strings_Split name (CHR '':'')));
          tmp = concat (map MakeFirstUpperCase (strings_Split fieldName (CHR ''.'')))
      in strings_Replace tmp (CHR ''-'') [])"

definition genCSharpFieldName :: "string \<Rightarrow> bool \<Rightarrow> counter \<Rightarrow> string \<times> counter" where
  "genCSharpFieldName name unique fieldNameCount =
     (let fieldName = normalizedName name
      in if unique then
           (let count = (case fieldNameCount fieldName of None \<Rightarrow> 0 | Some c \<Rightarrow> c) + 1
            in (if count \<noteq> 1 then fieldName @ itoa count else fieldName,
                fieldNameCount(fieldName \<mapsto> count)))
         else (fieldName, fieldNameCount))"

definition isBuiltInCSharpType :: "string \<Rightarrow> bool" where
  "isBuiltInCSharpType typeName \<longleftrightarrow> typeName \<in> set csharpBuildInType"

definition genCSharpFieldType :: "string \<Rightarrow> string" where
  "genCSharpFieldType name =
     (if name \<in> set csharpBuildInType then name
      else (let fieldType = concat (map MakeFirstUpperCase (strings_Split name (CHR ''.'')));
                fieldType = MakeFirstUpperCase (strings_Replace fieldType (CHR ''-'') [])
            in if fieldType \<noteq> [] then fieldType else ''object''))"

definition genCSharpClassAttributes :: "string \<Rightarrow> string" where
  "genCSharpClassAttributes name =
     tab @ ''[GeneratedCode('' @ dquote @ ''xgen'' @ dquote @ '', null)]'' @ nl @
     tab @ ''[XmlType('' @ dquote @ name @ dquote @ '')]'' @ nl"

definition genCSharpFieldAttributes :: "string \<Rightarrow> bool \<Rightarrow> string" where
  "genCSharpFieldAttributes name isElement =
     (if isElement then tab @ ''[XmlElement('' @ dquote @ name @ dquote @ '')]''
      else tab @ ''[XmlAttribute('' @ dquote @ name @ dquote @ '')]'')"

definition getCSharpDefaultValue :: "string \<Rightarrow> string" where
  "getCSharpDefaultValue typeName =
     (if strings_HasSuffix typeName ''?'' then []
      else if isBuiltInCSharpType typeName then
        (case map_of csharpBuildInDefaultValues typeName of
           Some defaultValue \<Rightarrow> '' = '' @ defaultValue @ '';''
         | None \<Rightarrow> [])
      else '' = new();'')"

text \<open>The type reference of a field as every handler resolves it.\<close>

definition resolvedType :: "string \<Rightarrow> construct list \<Rightarrow> string" where
  "resolvedType ref tree = genCSharpFieldType (getBasefromSimpleType (trimNSPrefix ref) tree)"

text \<open>
  The statement that every handler ends with:
  \<open>gen.Field += Sprintf("%s%s\tpublic partial class %s%s", comment, attributes, name, rest)\<close>.
\<close>

definition appendClass :: "CodeGenerator \<Rightarrow> string \<Rightarrow> string \<Rightarrow> string \<Rightarrow> string \<Rightarrow> CodeGenerator" where
  "appendClass gen fieldName doc name rest =
     gen\<lparr>Field := Field gen @ genFieldComment fieldName doc (tab @ ''//'') @
            genCSharpClassAttributes name @ tab @ ''public partial class '' @ fieldName @ rest\<rparr>"

subsection \<open>CSharpSimpleType\<close>

text \<open>The body of the loop over the sorted members of a union (lines 125 to 132).\<close>

definition CSharpSimpleType_member :: "construct list \<Rightarrow> kvPair \<Rightarrow> string" where
  "CSharpSimpleType_member tree member =
     (let memberName = fst member;
          memberType = snd member;
          memberType = (if memberType = [] then getBasefromSimpleType memberName tree
                        else memberType);
          fieldType = genCSharpFieldType memberType
      in tab @ tab @ genCSharpFieldAttributes memberName True @ '' public '' @ fieldType @
         ''? '' @ normalizedName memberName @ '' { get; set; }'' @ nl)"

definition CSharpSimpleType :: "SimpleType \<Rightarrow> CodeGenerator \<times> counter \<Rightarrow> CodeGenerator \<times> counter" where
  "CSharpSimpleType v s =
     (let gen = fst s; fieldNameCount = snd s; name = SimpleType.Name v
      in if SimpleType.List v \<and> StructAST gen name = None then
           (let fieldType = resolvedType (SimpleType.Base v) (ProtoTree gen);
                content = '' : List<'' @ fieldType @ ''> {};'' @ nl;
                gen = gen\<lparr>StructAST := (StructAST gen)(name \<mapsto> content)\<rparr>;
                r = genCSharpFieldName name True fieldNameCount
            in (appendClass gen (fst r) (SimpleType.Doc v) name content, snd r))
         else if SimpleType.Union v \<and> length (MemberTypes v) > 0 then
           (if StructAST gen name = None then
              (let content = nl @ tab @ ''{'' @ nl @
                     concat (map (CSharpSimpleType_member (ProtoTree gen))
                               (toSortedPairs (MemberTypes v))) @
                     tab @ ''}'' @ nl;
                   gen = gen\<lparr>StructAST := (StructAST gen)(name \<mapsto> content)\<rparr>;
                   r = genCSharpFieldName name True fieldNameCount
               in (appendClass gen (fst r) (SimpleType.Doc v) name content, snd r))
            else s)
         else if StructAST gen name = None then
           (let fieldType = resolvedType (SimpleType.Base v) (ProtoTree gen)
            in if \<not> isBuiltInCSharpType fieldType then
                 (let content = '' : '' @ fieldType @ '' {};'' @ nl;
                      gen = gen\<lparr>StructAST := (StructAST gen)(name \<mapsto> content)\<rparr>;
                      r = genCSharpFieldName name True fieldNameCount
                  in (appendClass gen (fst r) (SimpleType.Doc v) name content, snd r))
               else s)
         else s)"

subsection \<open>CSharpComplexType\<close>

text \<open>The bodies of the four loops (lines 161 to 166, 170 to 175, 178 to 186, 190 to 201).\<close>

definition CSharpComplexType_attrGroup :: "string \<Rightarrow> construct list \<Rightarrow> AttributeGroup \<Rightarrow> string" where
  "CSharpComplexType_attrGroup className tree attrGroup =
     (let fieldType = getBasefromSimpleType (trimNSPrefix (AttributeGroup.Ref attrGroup)) tree;
          fieldName = normalizedName (AttributeGroup.Name attrGroup);
          fieldName = (if fieldName = className then fieldName @ ''Value'' else fieldName)
      in tab @ genCSharpFieldAttributes (AttributeGroup.Name attrGroup) True @ '' public '' @
         genCSharpFieldType fieldType @ ''? '' @ fieldName @ '' { get; set; }'' @ nl)"

definition CSharpComplexType_attribute :: "construct list \<Rightarrow> Attribute \<Rightarrow> string" where
  "CSharpComplexType_attribute tree attribute =
     (let fieldType = resolvedType (Attribute.Type attribute) tree;
          fieldType = (if Attribute.Optional attribute then fieldType @ ''?'' else fieldType);
          fieldName = normalizedName (Attribute.Name attribute)
      in tab @ genCSharpFieldAttributes (Attribute.Name attribute) False @ '' public '' @
         fieldType @ '' '' @ fieldName @ ''Attr { get; set; }'' @
         getCSharpDefaultValue fieldType @ nl)"

definition CSharpComplexType_group :: "string \<Rightarrow> construct list \<Rightarrow> Group \<Rightarrow> string" where
  "CSharpComplexType_group className tree grp =
     (let fieldType = resolvedType (Group.Ref grp) tree;
          fieldType = (if Group.Plural grp then ''List<'' @ fieldType @ ''>'' else fieldType);
          fieldName = normalizedName (Group.Name grp);
          fieldName = (if fieldName = className then fieldName @ ''Value'' else fieldName)
      in tab @ ''public '' @ fieldType @ ''? '' @ fieldName @ '' { get; set; }'' @ nl)"

definition CSharpComplexType_element :: "string \<Rightarrow> construct list \<Rightarrow> Element \<Rightarrow> string" where
  "CSharpComplexType_element className tree element =
     (let fieldType = resolvedType (Element.Type element) tree;
          fieldType = (if Element.Plural element then ''List<'' @ fieldType @ ''>''
                       else fieldType);
          fieldType = (if Element.Optional element then fieldType @ ''?'' else fieldType);
          fieldName = normalizedName (Element.Name element);
          fieldName = (if fieldName = className then fieldName @ ''Value'' else fieldName)
      in tab @ genCSharpFieldAttributes (Element.Name element) True @ '' public '' @
         fieldType @ '' '' @ fieldName @ '' { get; set; }'' @
         getCSharpDefaultValue fieldType @ nl)"

text \<open>Lines 204 to 207: the text-content field, and lines 212 to 216: the base class.\<close>

definition CSharpComplexType_text :: "construct list \<Rightarrow> string \<Rightarrow> string" where
  "CSharpComplexType_text tree base =
     (if length base > 0 \<and> isBuiltInCSharpType base then
        (let fieldType = resolvedType base tree
         in tab @ tab @ ''[XmlText(typeof('' @ fieldType @ ''))] public '' @ fieldType @
            ''? Value { get; set; }'' @ nl)
      else [])"

definition CSharpComplexType_inheritance :: "construct list \<Rightarrow> string \<Rightarrow> string" where
  "CSharpComplexType_inheritance tree base =
     (if length base > 0 \<and> \<not> isBuiltInCSharpType base then
        (let fieldType = resolvedType base tree in '' : '' @ fieldType @ '' '')
      else [])"

definition CSharpComplexType_content :: "string \<Rightarrow> construct list \<Rightarrow> ComplexType \<Rightarrow> string" where
  "CSharpComplexType_content className tree v =
     nl @ tab @ ''{'' @ nl @
     concat (map (CSharpComplexType_attrGroup className tree) (ComplexType.AttributeGroup v)) @
     concat (map (CSharpComplexType_attribute tree) (ComplexType.Attributes v)) @
     concat (map (CSharpComplexType_group className tree) (ComplexType.Groups v)) @
     concat (map (CSharpComplexType_element className tree) (ComplexType.Elements v)) @
     CSharpComplexType_text tree (ComplexType.Base v) @
     tab @ ''}'' @ nl"

definition CSharpComplexType :: "ComplexType \<Rightarrow> CodeGenerator \<times> counter \<Rightarrow> CodeGenerator \<times> counter" where
  "CSharpComplexType v s =
     (let gen = fst s; fieldNameCount = snd s; name = ComplexType.Name v
      in if StructAST gen name = None then
           (let r = genCSharpFieldName name True fieldNameCount;
                className = fst r;
                content = CSharpComplexType_content className (ProtoTree gen) v;
                gen = gen\<lparr>StructAST := (StructAST gen)(name \<mapsto> content)\<rparr>;
                inheritance = CSharpComplexType_inheritance (ProtoTree gen) (ComplexType.Base v)
            in (appendClass gen className (ComplexType.Doc v) name (inheritance @ content),
                snd r))
         else s)"

subsection \<open>CSharpGroup and CSharpAttributeGroup\<close>

definition CSharpGroup_element :: "construct list \<Rightarrow> Element \<Rightarrow> string" where
  "CSharpGroup_element tree element =
     (let fieldType = resolvedType (Element.Type element) tree;
          fieldType = (if Element.Plural element then ''List<'' @ fieldType @ ''>''
                       else fieldType);
          fieldType = (if Element.Optional element then fieldType @ ''?'' else fieldType)
      in tab @ tab @ genCSharpFieldAttributes (Element.Name element) True @ '' public '' @
         fieldType @ '' '' @ normalizedName (Element.Name element) @ '' { get; set; }'' @
         getCSharpDefaultValue fieldType @ nl)"

definition CSharpGroup_group :: "construct list \<Rightarrow> Group \<Rightarrow> string" where
  "CSharpGroup_group tree grp =
     (let fieldType = resolvedType (Group.Ref grp) tree;
          fieldType = (if Group.Plural grp then ''List<'' @ fieldType @ ''>'' else fieldType)
      in tab @ tab @ genCSharpFieldAttributes (Group.Name grp) True @ '' public '' @
         fieldType @ ''? '' @ normalizedName (Group.Name grp) @ '' { get; set; }'' @ nl)"

definition CSharpGroup_content :: "construct list \<Rightarrow> Group \<Rightarrow> string" where
  "CSharpGroup_content tree v =
     nl @ tab @ ''{'' @ nl @
     concat (map (CSharpGroup_element tree) (Group.Elements v)) @
     concat (map (CSharpGroup_group tree) (Group.Groups v)) @
     tab @ ''}'' @ nl"

definition CSharpGroup :: "Group \<Rightarrow> CodeGenerator \<times> counter \<Rightarrow> CodeGenerator \<times> counter" where
  "CSharpGroup v s =
     (let gen = fst s; fieldNameCount = snd s; name = Group.Name v
      in if StructAST gen name = None then
           (let content = CSharpGroup_content (ProtoTree gen) v;
                gen = gen\<lparr>StructAST := (StructAST gen)(name \<mapsto> content)\<rparr>;
                r = genCSharpFieldName name True fieldNameCount
            in (appendClass gen (fst r) (Group.Doc v) name content, snd r))
         else s)"

definition CSharpAttributeGroup_attribute :: "construct list \<Rightarrow> Attribute \<Rightarrow> string" where
  "CSharpAttributeGroup_attribute tree attribute =
     (let fieldType = resolvedType (Attribute.Type attribute) tree;
          fieldType = (if Attribute.Optional attribute then fieldType @ ''?'' else fieldType);
          fieldName = normalizedName (Attribute.Name attribute)
      in tab @ tab @ genCSharpFieldAttributes (Attribute.Name attribute) False @ '' public '' @
         fieldType @ '' '' @ fieldName @ ''Attr { get; set; }'' @
         getCSharpDefaultValue fieldType @ nl)"

definition CSharpAttributeGroup_content :: "construct list \<Rightarrow> AttributeGroup \<Rightarrow> string" where
  "CSharpAttributeGroup_content tree v =
     nl @ tab @ ''{'' @ nl @
     concat (map (CSharpAttributeGroup_attribute tree) (AttributeGroup.Attributes v)) @
     tab @ ''}'' @ nl"

definition CSharpAttributeGroup :: "AttributeGroup \<Rightarrow> CodeGenerator \<times> counter \<Rightarrow> CodeGenerator \<times> counter" where
  "CSharpAttributeGroup v s =
     (let gen = fst s; fieldNameCount = snd s; name = AttributeGroup.Name v
      in if StructAST gen name = None then
           (let r = genCSharpFieldName name True fieldNameCount;
                className = fst r;
                content = CSharpAttributeGroup_content (ProtoTree gen) v;
                gen = gen\<lparr>StructAST := (StructAST gen)(name \<mapsto> content)\<rparr>
            in (appendClass gen className (AttributeGroup.Doc v) name content, snd r))
         else s)"

subsection \<open>CSharpElement and CSharpAttribute\<close>

definition CSharpElement :: "Element \<Rightarrow> CodeGenerator \<times> counter \<Rightarrow> CodeGenerator \<times> counter" where
  "CSharpElement v s =
     (let gen = fst s; fieldNameCount = snd s; name = Element.Name v
      in if StructAST gen name = None then
           (let fieldType = resolvedType (Element.Type v) (ProtoTree gen)
            in if \<not> isBuiltInCSharpType fieldType then
                 (let fieldType = (if Element.Plural v then ''List<'' @ fieldType @ ''>''
                                   else fieldType);
                      content = '' : '' @ fieldType @ '' {};'' @ nl;
                      gen = gen\<lparr>StructAST := (StructAST gen)(name \<mapsto> content)\<rparr>;
                      r = genCSharpFieldName name True fieldNameCount
                  in (appendClass gen (fst r) (Element.Doc v) name content, snd r))
               else s)
         else s)"

definition CSharpAttribute :: "Attribute \<Rightarrow> CodeGenerator \<times> counter \<Rightarrow> CodeGenerator \<times> counter" where
  "CSharpAttribute v s =
     (let gen = fst s; fieldNameCount = snd s; name = Attribute.Name v
      in if StructAST gen name = None then
           (let fieldType = resolvedType (Attribute.Type v) (ProtoTree gen)
            in if \<not> isBuiltInCSharpType fieldType then
                 (let fieldType = (if Attribute.Plural v then ''List<'' @ fieldType @ ''>''
                                   else fieldType);
                      content = '' : '' @ fieldType @ '' {};'' @ nl;
                      gen = gen\<lparr>StructAST := (StructAST gen)(name \<mapsto> content)\<rparr>;
                      r = genCSharpFieldName name True fieldNameCount
                  in (appendClass gen (fst r) (Attribute.Doc v) name content, snd r))
               else s)
         else s)"

subsection \<open>GenCSharp\<close>

text \<open>
  The body of the loop of \<open>GenCSharp\<close>: a nil entry is skipped, any other entry goes to the
  method \<open>CSharp<type name>\<close>, which \<open>callFuncByName\<close> finds by reflection.
\<close>

fun callFuncByName :: "construct \<Rightarrow> CodeGenerator \<times> counter \<Rightarrow> CodeGenerator \<times> counter" where
  "callFuncByName NilP s = s"
| "callFuncByName (SimpleTypeP v) s = CSharpSimpleType v s"
| "callFuncByName (ComplexTypeP v) s = CSharpComplexType v s"
| "callFuncByName (ElementP v) s = CSharpElement v s"
| "callFuncByName (AttributeP v) s = CSharpAttribute v s"
| "callFuncByName (GroupP v) s = CSharpGroup v s"
| "callFuncByName (AttributeGroupP v) s = CSharpAttributeGroup v s"

text \<open>
  The file system is the environment of \<open>GenCSharp\<close>: \<open>os_Create path\<close> is the error of
  \<open>os.Create\<close> on that path (if any), \<open>File_Write path data\<close> the number of bytes that
  \<open>f.Write\<close> stores and its error (if any). What happens to the file system is returned
  as the list of the operations that had an effect, oldest first.
\<close>

datatype os_error = PathError string

record os_env =
  os_Create :: "string \<Rightarrow> os_error option"
  File_Write :: "string \<Rightarrow> string \<Rightarrow> nat \<times> os_error option"

datatype fs_event = Created string | Wrote string string | Closed string

record GenCSharp_result =
  returned :: "os_error option"
  generator :: CodeGenerator
  nameCount :: counter
  files :: "fs_event list"

definition usingDirectives :: string where
  "usingDirectives = ''using System.CodeDom.Compiler;'' @ nl @ ''using System.Xml.Serialization;'' @ nl"

definition GenCSharp :: "os_env \<Rightarrow> CodeGenerator \<Rightarrow> counter \<Rightarrow> GenCSharp_result" where
  "GenCSharp env gen0 fieldNameCount0 =
     (let s = foldl (\<lambda>s ele. callFuncByName ele s) (gen0, Map.empty) (ProtoTree gen0);
          gen = fst s;
          path = File gen @ ''.cs''
      in case os_Create env path of
           Some e \<Rightarrow> \<lparr>returned = Some e, generator = gen, nameCount = snd s, files = []\<rparr>
         | None \<Rightarrow>
             (let ns = Package gen;
                  ns = (if ns = [] then ''schema'' else ns);
                  data = copyright @ nl @ nl @ usingDirectives @ nl @ ''namespace '' @ ns @ nl @
                         ''{'' @ Field gen @ ''}'' @ nl;
                  w = File_Write env path data
              in \<lparr>returned = None, generator = gen, nameCount = snd s,
                  files = [Created path, Wrote path (take (fst w) data), Closed path]\<rparr>))"

section \<open>Vocabulary of the properties\<close>

text \<open>The name of a construct, and the (name, underlying type) of a construct that
  \<open>getBasefromSimpleType\<close> can resolve.\<close>

fun constructName :: "construct \<Rightarrow> string option" where
  "constructName (SimpleTypeP v) = Some (SimpleType.Name v)"
| "constructName (ComplexTypeP v) = Some (ComplexType.Name v)"
| "constructName (ElementP v) = Some (Element.Name v)"
| "constructName (AttributeP v) = Some (Attribute.Name v)"
| "constructName (GroupP v) = Some (Group.Name v)"
| "constructName (AttributeGroupP v) = Some (AttributeGroup.Name v)"
| "constructName NilP = None"

fun underlying :: "construct \<Rightarrow> (string \<times> string) option" where
  "underlying (SimpleTypeP v) =
     (if \<not> SimpleType.List v \<and> \<not> SimpleType.Union v
      then Some (SimpleType.Name v, SimpleType.Base v) else None)"
| "underlying (AttributeP v) = Some (Attribute.Name v, Attribute.Type v)"
| "underlying (ElementP v) = Some (Element.Name v, Element.Type v)"
| "underlying _ = None"

text \<open>A generator as a run receives it: nothing emitted, nothing cached.\<close>

definition newGenerator :: "construct list \<Rightarrow> CodeGenerator" where
  "newGenerator tree =
     \<lparr>File = ''out'', Package = [], Field = [], StructAST = Map.empty, ProtoTree = tree\<rparr>"

text \<open>Sample constructs, generators and file systems.\<close>

definition myString :: SimpleType where
  "myString = \<lparr>SimpleType.Doc = [], Name = ''myString'', Base = ''string'', List = False,
     Union = False, MemberTypes = []\<rparr>"

definition item :: Element where
  "item = \<lparr>Element.Doc = [], Name = ''item'', Type = ''string'', Plural = True, Optional = True\<rparr>"

definition purchase :: ComplexType where
  "purchase = \<lparr>ComplexType.Doc = [], Name = ''order'', Base = [], Elements = [item],
     Attributes = [], Groups = [], AttributeGroup = []\<rparr>"

definition itemGroup :: Group where
  "itemGroup = Group [] ''items'' [item] [] False []"

definition nameAttr :: Attribute where
  "nameAttr = \<lparr>Attribute.Name = ''name'', Doc = [], Type = ''string'', Plural = False,
     Optional = False\<rparr>"

definition personAttr :: Attribute where
  "personAttr = \<lparr>Attribute.Name = ''person'', Doc = [], Type = ''string'', Plural = False,
     Optional = True\<rparr>"

definition personGroup :: AttributeGroup where
  "personGroup = \<lparr>AttributeGroup.Doc = [], Name = ''Person'', Ref = ''Person'',
     Attributes = [personAttr]\<rparr>"

definition person :: ComplexType where
  "person = \<lparr>ComplexType.Doc = [], Name = ''Person'', Base = [], Elements = [],
     Attributes = [nameAttr, personAttr], Groups = [], AttributeGroup = [personGroup]\<rparr>"



definition color :: SimpleType where
  "color = \<lparr>SimpleType.Doc = [], Name = ''Color'', Base = [], List = False, Union = True,
     MemberTypes = [(''red'', []), (''hex'', ''string'')]\<rparr>"

definition quantity :: SimpleType where
  "quantity = \<lparr>SimpleType.Doc = [], Name = ''quantity'', Base = [], List = False,
     Union = True, MemberTypes = [(''count'', ''int''), (''myString'', [])]\<rparr>"

definition emptyType :: "string \<Rightarrow> ComplexType" where
  "emptyType name = \<lparr>ComplexType.Doc = [], Name = name, Base = [], Elements = [],
     Attributes = [], Groups = [], AttributeGroup = []\<rparr>"

definition workingDisk :: os_env where
  "workingDisk = \<lparr>os_Create = (\<lambda>path. None), File_Write = (\<lambda>path data. (length data, None))\<rparr>"

definition fullDisk :: os_env where
  "fullDisk = \<lparr>os_Create = (\<lambda>path. None),
     File_Write = (\<lambda>path data. (0, Some (PathError ''no space left on device'')))\<rparr>"

text \<open>
  Two entries of a tree are the same construct when they are equal, or when they are simple
  types that differ only in the order in which their member map is visited.
\<close>

fun sameConstruct :: "construct \<Rightarrow> construct \<Rightarrow> bool" where
  "sameConstruct (SimpleTypeP v) (SimpleTypeP w) \<longleftrightarrow>
     distinct (map fst (MemberTypes v)) \<and> distinct (map fst (MemberTypes w)) \<and>
     set (MemberTypes v) = set (MemberTypes w) \<and> w = v\<lparr>MemberTypes := MemberTypes w\<rparr>"
| "sameConstruct c d \<longleftrightarrow> c = d"

text \<open>Two states of a run that agree on everything but the representation of the tree.\<close>

definition agree :: "CodeGenerator \<times> counter \<Rightarrow> CodeGenerator \<times> counter \<Rightarrow> bool" where
  "agree s t \<longleftrightarrow>
     snd s = snd t \<and> File (fst s) = File (fst t) \<and> Package (fst s) = Package (fst t) \<and>
     Field (fst s) = Field (fst t) \<and> StructAST (fst s) = StructAST (fst t) \<and>
     list_all2 sameConstruct (ProtoTree (fst s)) (ProtoTree (fst t))"

section \<open>Shared facts\<close>

lemma genCSharpFieldName_False [simp]:
  "genCSharpFieldName name False cnt = (normalizedName name, cnt)"
  by (simp add: genCSharpFieldName_def)

lemma genCSharpFieldName_numbering:
  "genCSharpFieldName name True cnt =
     (case cnt (normalizedName name) of
        None \<Rightarrow> (normalizedName name, cnt(normalizedName name \<mapsto> 1))
      | Some n \<Rightarrow> (if n = 0 then normalizedName name else normalizedName name @ itoa (Suc n),
                  cnt(normalizedName name \<mapsto> Suc n)))"
  by (simp add: genCSharpFieldName_def Let_def split: option.split)

lemma StructAST_appendClass [simp]: "StructAST (appendClass g a b c d) = StructAST g"
  by (simp add: appendClass_def)

lemma ProtoTree_appendClass [simp]: "ProtoTree (appendClass g a b c d) = ProtoTree g"
  by (simp add: appendClass_def)

lemma strings_HasSuffix_question [simp]: "strings_HasSuffix (t @ ''?'') ''?''"
  by (simp add: strings_HasSuffix_def)

lemma getCSharpDefaultValue_nullable [simp]: "getCSharpDefaultValue (t @ ''?'') = []"
  by (simp add: getCSharpDefaultValue_def)

lemma getCSharpDefaultValue_List [simp]:
  "getCSharpDefaultValue (''List<'' @ t @ ''>'') = '' = new();''"
proof -
  have "\<not> strings_HasSuffix (''List<'' @ t @ ''>'') ''?''"
    by (simp add: strings_HasSuffix_def)
  moreover have "isBuiltInCSharpType (''List<'' @ t @ ''>'') \<Longrightarrow> t = ''string''"
    by (auto simp: isBuiltInCSharpType_def csharpBuildInType_def)
  ultimately show ?thesis
    by (auto simp: getCSharpDefaultValue_def csharpBuildInDefaultValues_def)
qed

lemma concat_map_mem:
  assumes "x \<in> set xs"
  shows "\<exists>before after. concat (map f xs) = before @ f x @ after"
proof -
  from assms obtain ys zs where "xs = ys @ x # zs" by (auto dest: split_list)
  then have "concat (map f xs) = concat (map f ys) @ f x @ concat (map f zs)" by simp
  then show ?thesis by blast
qed

lemmas eval_names =
  normalizedName_def genCSharpFieldType_def resolvedType_def trimNSPrefix_def
  MakeFirstUpperCase_def unicode_ToUpper_def strings_Replace_def csharpBuildInType_def
  isBuiltInCSharpType_def

lemmas eval_text = tab_def nl_def dquote_def genCSharpFieldAttributes_def
  genCSharpClassAttributes_def genFieldComment_def appendClass_def
  getCSharpDefaultValue_def csharpBuildInDefaultValues_def strings_HasSuffix_def

section \<open>Type resolution\<close>

lemma getBase_no_match:
  "\<forall>c\<in>set tree. \<forall>b. underlying c \<noteq> Some (name, b) \<Longrightarrow>
   getBasefromSimpleType name tree = name"
  by (induction name tree rule: getBasefromSimpleType.induct) auto

lemma underlying_name: "underlying c = Some (n, b) \<Longrightarrow> constructName c = Some n"
  by (cases c) (auto split: if_splits)

lemma getBase_cases:
  "getBasefromSimpleType name tree = name \<or>
   (\<exists>c\<in>set tree. underlying c = Some (name, getBasefromSimpleType name tree))"
  by (induction name tree rule: getBasefromSimpleType.induct) auto

text \<open>
  C8. A reference that is the name of no construct of the tree resolves to itself.
  \<open>getBasefromSimpleType\<close> has a value on every input and no failing branch: the value
  is the reference itself, or the underlying type of a construct of that name.
\<close>

theorem getBasefromSimpleType_passthrough:
  "((\<forall>c\<in>set tree. constructName c \<noteq> Some name) \<longrightarrow>
      getBasefromSimpleType name tree = name) \<and>
   (getBasefromSimpleType name tree = name \<or>
      (\<exists>c\<in>set tree. underlying c = Some (name, getBasefromSimpleType name tree)))"
  using getBase_no_match getBase_cases underlying_name by blast

theorem getBasefromSimpleType_passthrough_witness:
  "constructName (SimpleTypeP myString) \<noteq> Some ''tns:Missing'' \<and>
   constructName NilP \<noteq> Some ''tns:Missing'' \<and>
   getBasefromSimpleType ''tns:Missing'' [SimpleTypeP myString, NilP] = ''tns:Missing''"
  using getBasefromSimpleType_passthrough [of "[SimpleTypeP myString, NilP]" "''tns:Missing''"]
  by (simp add: myString_def)

section \<open>Simple types\<close>

text \<open>
  C2, as the code has it. A simple type that is neither a list nor a union and whose
  resolved base is a C\# built-in type leaves the generator as it was: no declaration is
  appended, nothing is entered in \<open>StructAST\<close>, the counter is not touched. Running
  the handler again changes nothing either.
\<close>

theorem CSharpSimpleType_builtin_base_unchanged:
  assumes "\<not> SimpleType.List v" and "\<not> SimpleType.Union v"
    and "isBuiltInCSharpType (resolvedType (SimpleType.Base v) (ProtoTree gen))"
  shows "CSharpSimpleType v (gen, cnt) = (gen, cnt)"
  using assms by (simp add: CSharpSimpleType_def Let_def)

theorem CSharpSimpleType_builtin_base_unchanged_witness:
  "\<not> SimpleType.List myString \<and> \<not> SimpleType.Union myString \<and>
   isBuiltInCSharpType
     (resolvedType (SimpleType.Base myString) (ProtoTree (newGenerator [SimpleTypeP myString]))) \<and>
   CSharpSimpleType myString (newGenerator [SimpleTypeP myString], Map.empty) =
     (newGenerator [SimpleTypeP myString], Map.empty)"
proof -
  have 1: "\<not> SimpleType.List myString" and 2: "\<not> SimpleType.Union myString"
    by (simp_all add: myString_def)
  have 3: "isBuiltInCSharpType
     (resolvedType (SimpleType.Base myString) (ProtoTree (newGenerator [SimpleTypeP myString])))"
    by (simp add: myString_def newGenerator_def eval_names)
  from CSharpSimpleType_builtin_base_unchanged [OF 1 2 3] 1 2 3 show ?thesis by blast
qed

text \<open>
  C2, as the specification has it, fails: after the handler has run on \<open>myString\<close>
  (base \<open>string\<close>) the name \<open>myString\<close> is not a key of \<open>StructAST\<close>.
\<close>

theorem CSharpSimpleType_builtin_base_not_cached:
  "\<not> SimpleType.List myString \<and> \<not> SimpleType.Union myString \<and>
   isBuiltInCSharpType (resolvedType (SimpleType.Base myString) [SimpleTypeP myString]) \<and>
   SimpleType.Name myString \<notin>
     dom (StructAST (fst (CSharpSimpleType myString
            (newGenerator [SimpleTypeP myString], Map.empty))))"
  by (simp add: CSharpSimpleType_def Let_def myString_def newGenerator_def eval_names)

subsection \<open>The order of the members of a union\<close>

lemma Less_irrefl: "\<not> Less a a"
  by (simp add: Less_def)

lemma Less_trans: "Less a b \<Longrightarrow> Less b c \<Longrightarrow> Less a c"
  by (auto simp: Less_def)

lemma Less_total: "a \<noteq> b \<Longrightarrow> Less a b \<or> Less b a"
  by (cases a; cases b) (auto simp: Less_def)

lemma set_insert_Less [simp]: "set (insert_Less x xs) = insert x (set xs)"
  by (induction xs) auto

lemma set_sort_Sort [simp]: "set (sort_Sort xs) = set xs"
  by (induction xs) auto

lemma length_insert_Less [simp]: "length (insert_Less x xs) = Suc (length xs)"
  by (induction xs) auto

lemma length_sort_Sort [simp]: "length (sort_Sort xs) = length xs"
  by (induction xs) auto

lemma sorted_insert_Less:
  "sorted_wrt Less xs \<Longrightarrow> x \<notin> set xs \<Longrightarrow> sorted_wrt Less (insert_Less x xs)"
  by (induction xs) (auto dest: Less_total Less_trans)

lemma sorted_sort_Sort: "distinct xs \<Longrightarrow> sorted_wrt Less (sort_Sort xs)"
  by (induction xs) (auto intro: sorted_insert_Less)

lemma sorted_Less_distinct: "sorted_wrt Less xs \<Longrightarrow> distinct xs"
  by (induction xs) (auto simp: Less_irrefl)

lemma sorted_by_Less_unique:
  "sorted_wrt Less xs \<Longrightarrow> sorted_wrt Less ys \<Longrightarrow> set xs = set ys \<Longrightarrow> xs = ys"
proof (induction xs arbitrary: ys)
  case Nil
  then show ?case by simp
next
  case (Cons x xs)
  then obtain y ys' where ys: "ys = y # ys'" by (cases ys) auto
  have xy: "x = y"
  proof (rule ccontr)
    assume ne: "x \<noteq> y"
    with Cons.prems ys have "y \<in> set xs" and "x \<in> set ys'" by auto
    with Cons.prems ys have "Less x y" and "Less y x" by auto
    then show False using Less_trans Less_irrefl by blast
  qed
  from Cons.prems ys have dx: "x \<notin> set xs" and dy: "y \<notin> set ys'"
    by (auto simp: Less_irrefl)
  with Cons.prems ys xy have "set xs = set ys'" by auto
  with Cons ys xy show ?case by simp
qed

lemma distinct_keys: "distinct (map fst xs) \<Longrightarrow> distinct xs"
  by (simp add: distinct_map)

lemma toSortedPairs_order_independent:
  assumes "distinct (map fst xs)" and "distinct (map fst ys)" and "set xs = set ys"
  shows "toSortedPairs xs = toSortedPairs ys"
  unfolding toSortedPairs_def
  using assms by (intro sorted_by_Less_unique sorted_sort_Sort distinct_keys) simp_all

lemma CSharpSimpleType_union_body:
  assumes "SimpleType.Union v" and "\<not> SimpleType.List v" and "MemberTypes v \<noteq> []"
    and "StructAST gen (SimpleType.Name v) = None"
  shows "StructAST (fst (CSharpSimpleType v (gen, cnt))) (SimpleType.Name v) =
    Some (nl @ tab @ ''{'' @ nl @
          concat (map (CSharpSimpleType_member (ProtoTree gen)) (toSortedPairs (MemberTypes v))) @
          tab @ ''}'' @ nl)"
  using assms by (simp add: CSharpSimpleType_def Let_def)

lemma CSharpSimpleType_members_only:
  assumes "toSortedPairs ms = toSortedPairs (MemberTypes v)" and "(ms = []) = (MemberTypes v = [])"
  shows "CSharpSimpleType (v\<lparr>MemberTypes := ms\<rparr>) s = CSharpSimpleType v s"
  using assms by (simp add: CSharpSimpleType_def Let_def)

text \<open>
  C3, as the code has it. A union with a non-empty member map that is not yet cached gets
  a body with one nullable field per entry of the map. The entries are in ascending order
  of the type that the map gives for the member (empty when the map gives none), and for
  equal types in descending order of the member name. The type of a field is resolved
  after sorting. The result does not depend on the order in which the map is visited.
\<close>

theorem CSharpSimpleType_union_fields:
  assumes "SimpleType.Union v" and "\<not> SimpleType.List v" and "MemberTypes v \<noteq> []"
    and "distinct (map fst (MemberTypes v))"
    and "StructAST gen (SimpleType.Name v) = None"
  shows "\<exists>members.
    StructAST (fst (CSharpSimpleType v (gen, cnt))) (SimpleType.Name v) =
      Some (nl @ tab @ ''{'' @ nl @
            concat (map (\<lambda>m. tab @ tab @ genCSharpFieldAttributes (fst m) True @ '' public '' @
                           genCSharpFieldType
                             (if snd m = [] then getBasefromSimpleType (fst m) (ProtoTree gen)
                              else snd m) @
                           ''? '' @ normalizedName (fst m) @ '' { get; set; }'' @ nl)
                      members) @
            tab @ ''}'' @ nl) \<and>
    set members = set (MemberTypes v) \<and> length members = length (MemberTypes v) \<and>
    sorted_wrt (\<lambda>a b. snd a < snd b \<or> (snd a = snd b \<and> fst b < fst a)) members \<and>
    (\<forall>ms. distinct (map fst ms) \<and> set ms = set (MemberTypes v) \<longrightarrow>
       CSharpSimpleType (v\<lparr>MemberTypes := ms\<rparr>) (gen, cnt) = CSharpSimpleType v (gen, cnt))"
proof -
  let ?members = "toSortedPairs (MemberTypes v)"
  have line: "CSharpSimpleType_member (ProtoTree gen) =
      (\<lambda>m. tab @ tab @ genCSharpFieldAttributes (fst m) True @ '' public '' @
           genCSharpFieldType
             (if snd m = [] then getBasefromSimpleType (fst m) (ProtoTree gen) else snd m) @
           ''? '' @ normalizedName (fst m) @ '' { get; set; }'' @ nl)"
    by (rule ext) (simp add: CSharpSimpleType_member_def Let_def)
  have body: "StructAST (fst (CSharpSimpleType v (gen, cnt))) (SimpleType.Name v) =
      Some (nl @ tab @ ''{'' @ nl @
            concat (map (CSharpSimpleType_member (ProtoTree gen)) ?members) @ tab @ ''}'' @ nl)"
    using assms by (simp add: CSharpSimpleType_union_body)
  have "sorted_wrt Less ?members"
    using assms(4) by (simp add: toSortedPairs_def sorted_sort_Sort distinct_keys)
  then have sorted:
    "sorted_wrt (\<lambda>a b. snd a < snd b \<or> (snd a = snd b \<and> fst b < fst a)) ?members"
    by (simp add: Less_def [abs_def])
  have indep: "CSharpSimpleType (v\<lparr>MemberTypes := ms\<rparr>) (gen, cnt) = CSharpSimpleType v (gen, cnt)"
    if "distinct (map fst ms) \<and> set ms = set (MemberTypes v)" for ms
  proof (rule CSharpSimpleType_members_only)
    show "toSortedPairs ms = toSortedPairs (MemberTypes v)"
      using that assms(4) by (intro toSortedPairs_order_independent) simp_all
    show "(ms = []) = (MemberTypes v = [])"
      using that by (metis set_empty)
  qed
  show ?thesis
    using body sorted indep unfolding line
    by (intro exI [of _ ?members]) (simp add: toSortedPairs_def)
qed

theorem CSharpSimpleType_union_fields_witness:
  "SimpleType.Union color \<and> \<not> SimpleType.List color \<and> MemberTypes color \<noteq> [] \<and>
   distinct (map fst (MemberTypes color)) \<and>
   StructAST (newGenerator []) (SimpleType.Name color) = None \<and>
   distinct (map fst [(''hex'', ''string''), (''red'', [])]) \<and>
   set [(''hex'', ''string''), (''red'', [])] = set (MemberTypes color) \<and>
   CSharpSimpleType (color\<lparr>MemberTypes := [(''hex'', ''string''), (''red'', [])]\<rparr>)
     (newGenerator [], Map.empty) =
   CSharpSimpleType color (newGenerator [], Map.empty)"
proof -
  have h: "SimpleType.Union color" "\<not> SimpleType.List color" "MemberTypes color \<noteq> []"
    "distinct (map fst (MemberTypes color))"
    "StructAST (newGenerator []) (SimpleType.Name color) = None"
    by (simp_all add: color_def newGenerator_def)
  have m: "distinct (map fst [(''hex'', ''string''), (''red'', [])])"
    "set [(''hex'', ''string''), (''red'', [])] = set (MemberTypes color)"
    by (auto simp: color_def)
  from CSharpSimpleType_union_fields [OF h, of Map.empty] m h show ?thesis by blast
qed

text \<open>
  C3, as the specification has it, fails. In \<open>quantity\<close> the map gives no type for the
  member \<open>myString\<close> and the type \<open>int\<close> for the member \<open>count\<close>. The field of
  \<open>myString\<close>, of resolved type \<open>string\<close>, comes before the field of \<open>count\<close>, of
  resolved type \<open>int\<close>, although \<open>int\<close> is below \<open>string\<close>.
\<close>

theorem CSharpSimpleType_union_order_counterexample:
  "StructAST (fst (CSharpSimpleType quantity
      (newGenerator [SimpleTypeP myString, SimpleTypeP quantity], Map.empty))) ''quantity'' =
     Some (nl @ tab @ ''{'' @ nl @
           tab @ tab @ tab @ ''[XmlElement('' @ dquote @ ''myString'' @ dquote @
             '')] public string? MyString { get; set; }'' @ nl @
           tab @ tab @ tab @ ''[XmlElement('' @ dquote @ ''count'' @ dquote @
             '')] public int? Count { get; set; }'' @ nl @
           tab @ ''}'' @ nl) \<and>
   genCSharpFieldType (getBasefromSimpleType ''myString''
      [SimpleTypeP myString, SimpleTypeP quantity]) = ''string'' \<and>
   genCSharpFieldType ''int'' = ''int'' \<and>
   ''int'' < ''string''"
  by (simp add: quantity_def myString_def newGenerator_def CSharpSimpleType_def
      CSharpSimpleType_member_def toSortedPairs_def Less_def Let_def eval_names
      tab_def nl_def dquote_def genCSharpFieldAttributes_def)

section \<open>Complex types, groups and attribute groups\<close>

lemma CSharpComplexType_fresh:
  assumes "StructAST gen (ComplexType.Name v) = None"
  shows "CSharpComplexType v (gen, cnt) =
    (let r = genCSharpFieldName (ComplexType.Name v) True cnt;
         content = CSharpComplexType_content (fst r) (ProtoTree gen) v
     in (appendClass (gen\<lparr>StructAST := (StructAST gen)(ComplexType.Name v \<mapsto> content)\<rparr>)
           (fst r) (ComplexType.Doc v) (ComplexType.Name v)
           (CSharpComplexType_inheritance (ProtoTree gen) (ComplexType.Base v) @ content), snd r))"
  using assms by (simp add: CSharpComplexType_def Let_def)

lemma CSharpComplexType_body:
  assumes "StructAST gen (ComplexType.Name v) = None"
  shows "StructAST (fst (CSharpComplexType v (gen, cnt))) (ComplexType.Name v) =
    Some (CSharpComplexType_content (fst (genCSharpFieldName (ComplexType.Name v) True cnt))
            (ProtoTree gen) v)"
  by (simp add: CSharpComplexType_fresh [OF assms] Let_def)


lemma CSharpGroup_body:
  assumes "StructAST gen (Group.Name v) = None"
  shows "StructAST (fst (CSharpGroup v (gen, cnt))) (Group.Name v) =
    Some (CSharpGroup_content (ProtoTree gen) v)"
  using assms by (simp add: CSharpGroup_def Let_def)





lemma content_has_element:
  assumes "e \<in> set (ComplexType.Elements v)"
  shows "\<exists>before after. CSharpComplexType_content cn tree v =
           before @ CSharpComplexType_element cn tree e @ after"
proof -
  from concat_map_mem [OF assms, of "CSharpComplexType_element cn tree"]
  obtain p q where "concat (map (CSharpComplexType_element cn tree) (ComplexType.Elements v))
      = p @ CSharpComplexType_element cn tree e @ q" by blast
  then have "CSharpComplexType_content cn tree v =
     (nl @ tab @ ''{'' @ nl @
      concat (map (CSharpComplexType_attrGroup cn tree) (ComplexType.AttributeGroup v)) @
      concat (map (CSharpComplexType_attribute tree) (ComplexType.Attributes v)) @
      concat (map (CSharpComplexType_group cn tree) (ComplexType.Groups v)) @ p) @
     CSharpComplexType_element cn tree e @
     (q @ CSharpComplexType_text tree (ComplexType.Base v) @ tab @ ''}'' @ nl)"
    by (simp add: CSharpComplexType_content_def)
  then show ?thesis by blast
qed

lemma group_content_has_element:
  assumes "e \<in> set (Group.Elements v)"
  shows "\<exists>before after. CSharpGroup_content tree v = before @ CSharpGroup_element tree e @ after"
proof -
  from concat_map_mem [OF assms, of "CSharpGroup_element tree"]
  obtain p q where "concat (map (CSharpGroup_element tree) (Group.Elements v))
      = p @ CSharpGroup_element tree e @ q" by blast
  then have "CSharpGroup_content tree v =
     (nl @ tab @ ''{'' @ nl @ p) @ CSharpGroup_element tree e @
     (q @ concat (map (CSharpGroup_group tree) (Group.Groups v)) @ tab @ ''}'' @ nl)"
    by (simp add: CSharpGroup_content_def)
  then show ?thesis by blast
qed


subsection \<open>Plural and optional elements\<close>

text \<open>
  C1, as the code has it. Every element of a complex type or of a group that is not yet
  cached has a line in the body. The type in that line is \<open>List<T>\<close> for a plural
  element and \<open>T\<close> otherwise, where \<open>T\<close> is the resolved type of the element, followed
  by \<open>?\<close> when the element is optional: a plural optional element has the type
  \<open>List<T>?\<close>, a non-plural optional element the type \<open>T?\<close>.
\<close>

theorem element_field_type:
  "(e \<in> set (ComplexType.Elements v) \<and> StructAST gen (ComplexType.Name v) = None \<longrightarrow>
     (\<exists>before after.
        StructAST (fst (CSharpComplexType v (gen, cnt))) (ComplexType.Name v) =
          Some (before @ CSharpComplexType_element
                  (fst (genCSharpFieldName (ComplexType.Name v) True cnt)) (ProtoTree gen) e @
                after))) \<and>
   (e \<in> set (Group.Elements g) \<and> StructAST gen (Group.Name g) = None \<longrightarrow>
     (\<exists>before after.
        StructAST (fst (CSharpGroup g (gen, cnt))) (Group.Name g) =
          Some (before @ CSharpGroup_element (ProtoTree gen) e @ after))) \<and>
   (let T = resolvedType (Element.Type e) tree;
        fieldType = (if Element.Plural e
                     then (if Element.Optional e then ''List<'' @ T @ ''>?''
                           else ''List<'' @ T @ ''>'')
                     else (if Element.Optional e then T @ ''?'' else T));
        N = normalizedName (Element.Name e)
    in CSharpComplexType_element className tree e =
         tab @ genCSharpFieldAttributes (Element.Name e) True @ '' public '' @ fieldType @
         '' '' @ (if N = className then N @ ''Value'' else N) @ '' { get; set; }'' @
         getCSharpDefaultValue fieldType @ nl \<and>
       CSharpGroup_element tree e =
         tab @ tab @ genCSharpFieldAttributes (Element.Name e) True @ '' public '' @ fieldType @
         '' '' @ N @ '' { get; set; }'' @ getCSharpDefaultValue fieldType @ nl)"
proof (intro conjI impI)
  assume "e \<in> set (ComplexType.Elements v) \<and> StructAST gen (ComplexType.Name v) = None"
  then show "\<exists>before after.
        StructAST (fst (CSharpComplexType v (gen, cnt))) (ComplexType.Name v) =
          Some (before @ CSharpComplexType_element
                  (fst (genCSharpFieldName (ComplexType.Name v) True cnt)) (ProtoTree gen) e @
                after)"
    using content_has_element CSharpComplexType_body by simp
next
  assume "e \<in> set (Group.Elements g) \<and> StructAST gen (Group.Name g) = None"
  then show "\<exists>before after.
        StructAST (fst (CSharpGroup g (gen, cnt))) (Group.Name g) =
          Some (before @ CSharpGroup_element (ProtoTree gen) e @ after)"
    using group_content_has_element CSharpGroup_body by simp
next
  show "let T = resolvedType (Element.Type e) tree;
        fieldType = (if Element.Plural e
                     then (if Element.Optional e then ''List<'' @ T @ ''>?''
                           else ''List<'' @ T @ ''>'')
                     else (if Element.Optional e then T @ ''?'' else T));
        N = normalizedName (Element.Name e)
    in CSharpComplexType_element className tree e =
         tab @ genCSharpFieldAttributes (Element.Name e) True @ '' public '' @ fieldType @
         '' '' @ (if N = className then N @ ''Value'' else N) @ '' { get; set; }'' @
         getCSharpDefaultValue fieldType @ nl \<and>
       CSharpGroup_element tree e =
         tab @ tab @ genCSharpFieldAttributes (Element.Name e) True @ '' public '' @ fieldType @
         '' '' @ N @ '' { get; set; }'' @ getCSharpDefaultValue fieldType @ nl"
    by (simp add: CSharpComplexType_element_def CSharpGroup_element_def Let_def)
qed

theorem element_field_type_witness:
  "item \<in> set (ComplexType.Elements purchase) \<and>
   StructAST (newGenerator []) (ComplexType.Name purchase) = None \<and>
   item \<in> set (Group.Elements itemGroup) \<and>
   StructAST (newGenerator []) (Group.Name itemGroup) = None \<and>
   (\<exists>before after.
      StructAST (fst (CSharpComplexType purchase (newGenerator [], Map.empty))) ''order'' =
        Some (before @ (tab @ tab @ ''[XmlElement('' @ dquote @ ''item'' @ dquote @
              '')] public List<string>? Item { get; set; }'' @ nl) @ after)) \<and>
   (\<exists>before after.
      StructAST (fst (CSharpGroup itemGroup (newGenerator [], Map.empty))) ''items'' =
        Some (before @ (tab @ tab @ tab @ ''[XmlElement('' @ dquote @ ''item'' @ dquote @
              '')] public List<string>? Item { get; set; }'' @ nl) @ after))"
proof -
  have m1: "item \<in> set (ComplexType.Elements purchase)"
    and m2: "item \<in> set (Group.Elements itemGroup)"
    by (simp_all add: purchase_def itemGroup_def)
  have h1: "StructAST (newGenerator []) (ComplexType.Name purchase) = None"
    and h2: "StructAST (newGenerator []) (Group.Name itemGroup) = None"
    by (simp_all add: newGenerator_def)
  have n: "ComplexType.Name purchase = ''order''" "Group.Name itemGroup = ''items''"
    by (simp_all add: purchase_def itemGroup_def)
  note t = element_field_type [of item purchase "newGenerator []" Map.empty itemGroup
      "ProtoTree (newGenerator [])" "fst (genCSharpFieldName (ComplexType.Name purchase) True Map.empty)",
      unfolded Let_def n]
  have l1: "CSharpComplexType_element
      (fst (genCSharpFieldName ''order'' True Map.empty))
      (ProtoTree (newGenerator [])) item =
      tab @ tab @ ''[XmlElement('' @ dquote @ ''item'' @ dquote @
              '')] public List<string>? Item { get; set; }'' @ nl"
    unfolding t [THEN conjunct2, THEN conjunct2, THEN conjunct1]
    by (simp add: item_def newGenerator_def genCSharpFieldName_def Let_def
        genCSharpFieldAttributes_def eval_names getCSharpDefaultValue_def strings_HasSuffix_def)
  have l2: "CSharpGroup_element (ProtoTree (newGenerator [])) item =
      tab @ tab @ tab @ ''[XmlElement('' @ dquote @ ''item'' @ dquote @
              '')] public List<string>? Item { get; set; }'' @ nl"
    unfolding t [THEN conjunct2, THEN conjunct2, THEN conjunct2]
    by (simp add: item_def newGenerator_def genCSharpFieldAttributes_def eval_names
        getCSharpDefaultValue_def strings_HasSuffix_def)
  from t m1 h1 [unfolded n] have "\<exists>before after.
      StructAST (fst (CSharpComplexType purchase (newGenerator [], Map.empty))) ''order'' =
        Some (before @ (tab @ tab @ ''[XmlElement('' @ dquote @ ''item'' @ dquote @
              '')] public List<string>? Item { get; set; }'' @ nl) @ after)"
    unfolding l1 by blast
  moreover from t m2 h2 [unfolded n] have "\<exists>before after.
      StructAST (fst (CSharpGroup itemGroup (newGenerator [], Map.empty))) ''items'' =
        Some (before @ (tab @ tab @ tab @ ''[XmlElement('' @ dquote @ ''item'' @ dquote @
              '')] public List<string>? Item { get; set; }'' @ nl) @ after)"
    unfolding l2 by blast
  ultimately show ?thesis
    using m1 m2 h1 h2 by blast
qed

text \<open>
  C1, as the specification has it, fails: the plural and optional element \<open>item\<close> of type
  \<open>string\<close> is rendered with the type \<open>List<string>?\<close>, in a complex type and in a
  group.
\<close>

theorem element_counterexample:
  "Element.Plural item \<and> Element.Optional item \<and>
   StructAST (fst (CSharpComplexType purchase (newGenerator [], Map.empty))) ''order'' =
     Some (nl @ tab @ ''{'' @ nl @
           tab @ tab @ ''[XmlElement('' @ dquote @ ''item'' @ dquote @ '')] public List<string>? Item { get; set; }'' @ nl @
           tab @ ''}'' @ nl) \<and>
   StructAST (fst (CSharpGroup itemGroup (newGenerator [], Map.empty))) ''items'' =
     Some (nl @ tab @ ''{'' @ nl @
           tab @ tab @ tab @ ''[XmlElement('' @ dquote @ ''item'' @ dquote @ '')] public List<string>? Item { get; set; }'' @ nl @
           tab @ ''}'' @ nl)"
  by (simp add: item_def purchase_def itemGroup_def newGenerator_def CSharpComplexType_def CSharpGroup_def
      CSharpComplexType_content_def CSharpGroup_content_def CSharpComplexType_element_def
      CSharpGroup_element_def CSharpComplexType_text_def genCSharpFieldName_def Let_def
      eval_names eval_text)

subsection \<open>The base of a complex type\<close>




subsection \<open>Fields named like their class\<close>





section \<open>A run of the generator\<close>

text \<open>
  C4 on three complex types with the distinct names \<open>foo\<close>, \<open>Foo\<close> and \<open>Foo2\<close>. The
  second one is the second occurrence of \<open>Foo\<close> and is declared as \<open>Foo2\<close>; the third one is
  the first occurrence of \<open>Foo2\<close> and is declared as \<open>Foo2\<close> as well. The identifiers of
  the declarations of this run are not pairwise distinct.
\<close>

theorem GenCSharp_colliding_names:
  "distinct [''foo'', ''Foo'', ''Foo2''] \<and>
   Field (generator (GenCSharp workingDisk
     (newGenerator [ComplexTypeP (emptyType ''foo''), ComplexTypeP (emptyType ''Foo''),
                    ComplexTypeP (emptyType ''Foo2'')]) Map.empty)) =
     nl @ tab @ ''// Foo ...'' @ nl @
     tab @ ''[GeneratedCode('' @ dquote @ ''xgen'' @ dquote @ '', null)]'' @ nl @
     tab @ ''[XmlType('' @ dquote @ ''foo'' @ dquote @ '')]'' @ nl @
     tab @ ''public partial class Foo'' @ nl @ tab @ ''{'' @ nl @ tab @ ''}'' @ nl @
     nl @ tab @ ''// Foo2 ...'' @ nl @
     tab @ ''[GeneratedCode('' @ dquote @ ''xgen'' @ dquote @ '', null)]'' @ nl @
     tab @ ''[XmlType('' @ dquote @ ''Foo'' @ dquote @ '')]'' @ nl @
     tab @ ''public partial class Foo2'' @ nl @ tab @ ''{'' @ nl @ tab @ ''}'' @ nl @
     nl @ tab @ ''// Foo2 ...'' @ nl @
     tab @ ''[GeneratedCode('' @ dquote @ ''xgen'' @ dquote @ '', null)]'' @ nl @
     tab @ ''[XmlType('' @ dquote @ ''Foo2'' @ dquote @ '')]'' @ nl @
     tab @ ''public partial class Foo2'' @ nl @ tab @ ''{'' @ nl @ tab @ ''}'' @ nl"
  by (simp add: GenCSharp_def emptyType_def newGenerator_def workingDisk_def CSharpComplexType_def
      CSharpComplexType_content_def CSharpComplexType_text_def CSharpComplexType_inheritance_def
      genCSharpFieldName_def Let_def eval_names tab_def nl_def dquote_def
      genCSharpClassAttributes_def genFieldComment_def appendClass_def itoa.simps digit_char_def)

lemma File_callFuncByName:
  "File (fst (callFuncByName c s)) = File (fst s) \<and>
   Package (fst (callFuncByName c s)) = Package (fst s)"
  by (cases c)
    (simp_all add: CSharpSimpleType_def CSharpComplexType_def CSharpElement_def
      CSharpAttribute_def CSharpGroup_def CSharpAttributeGroup_def Let_def appendClass_def)

lemma File_foldl:
  "File (fst (foldl (\<lambda>s ele. callFuncByName ele s) s cs)) = File (fst s)"
  by (induction cs arbitrary: s) (simp_all add: File_callFuncByName)

lemma GenCSharp_returned:
  "returned (GenCSharp env gen cnt) = os_Create env (File gen @ ''.cs'')"
  by (simp add: GenCSharp_def Let_def File_foldl split: option.split)

lemma GenCSharp_files_on_error:
  "returned (GenCSharp env gen cnt) \<noteq> None \<Longrightarrow> files (GenCSharp env gen cnt) = []"
  by (simp add: GenCSharp_def Let_def split: option.splits)

text \<open>
  C6 on a file system that creates \<open>out.cs\<close> and then fails to write to it. \<open>GenCSharp\<close>
  returns no error, and the file exists and is empty.
\<close>

theorem GenCSharp_write_error_dropped:
  "os_Create fullDisk ''out.cs'' = None \<and>
   snd (File_Write fullDisk ''out.cs''
         (copyright @ nl @ nl @ usingDirectives @ nl @ ''namespace schema'' @ nl @
          ''{'' @ ''}'' @ nl)) = Some (PathError ''no space left on device'') \<and>
   returned (GenCSharp fullDisk (newGenerator []) Map.empty) = None \<and>
   files (GenCSharp fullDisk (newGenerator []) Map.empty) =
     [Created ''out.cs'', Wrote ''out.cs'' [], Closed ''out.cs'']"
  by (simp add: GenCSharp_def newGenerator_def fullDisk_def Let_def)

subsection \<open>Determinism\<close>

lemma getBase_same:
  "list_all2 sameConstruct t u \<Longrightarrow> getBasefromSimpleType n t = getBasefromSimpleType n u"
proof (induction t u rule: list_all2_induct)
  case Nil
  then show ?case by simp
next
  case (Cons c t d u)
  show ?case
  proof (cases c)
    case (SimpleTypeP v)
    with Cons.hyps(1) obtain w where d: "d = SimpleTypeP w" by (cases d) auto
    with SimpleTypeP Cons.hyps(1) have "w = v\<lparr>MemberTypes := MemberTypes w\<rparr>" by simp
    then have "SimpleType.List w = SimpleType.List v" "SimpleType.Union w = SimpleType.Union v"
      "SimpleType.Name w = SimpleType.Name v" "SimpleType.Base w = SimpleType.Base v"
      by (metis SimpleType.select_convs SimpleType.surjective SimpleType.update_convs(6))+
    with SimpleTypeP d Cons.IH show ?thesis by simp
  qed (use Cons in auto)
qed

lemma resolvedType_same:
  "list_all2 sameConstruct t u \<Longrightarrow> resolvedType r t = resolvedType r u"
  by (simp add: resolvedType_def getBase_same [of t u])

lemma loop_bodies_same:
  assumes "list_all2 sameConstruct t u"
  shows "CSharpComplexType_attrGroup cn t = CSharpComplexType_attrGroup cn u"
    and "CSharpComplexType_attribute t = CSharpComplexType_attribute u"
    and "CSharpComplexType_group cn t = CSharpComplexType_group cn u"
    and "CSharpComplexType_element cn t = CSharpComplexType_element cn u"
    and "CSharpGroup_element t = CSharpGroup_element u"
    and "CSharpGroup_group t = CSharpGroup_group u"
    and "CSharpAttributeGroup_attribute t = CSharpAttributeGroup_attribute u"
    and "CSharpSimpleType_member t = CSharpSimpleType_member u"
  by (rule ext, simp add: CSharpComplexType_attrGroup_def CSharpComplexType_attribute_def
      CSharpComplexType_group_def CSharpComplexType_element_def CSharpGroup_element_def
      CSharpGroup_group_def CSharpAttributeGroup_attribute_def CSharpSimpleType_member_def
      Let_def resolvedType_same [OF assms] getBase_same [OF assms])+

lemma contents_same:
  assumes "list_all2 sameConstruct t u"
  shows "CSharpComplexType_content cn t v = CSharpComplexType_content cn u v"
    and "CSharpComplexType_inheritance t b = CSharpComplexType_inheritance u b"
    and "CSharpGroup_content t g = CSharpGroup_content u g"
    and "CSharpAttributeGroup_content t a = CSharpAttributeGroup_content u a"
  by (simp_all add: CSharpComplexType_content_def CSharpComplexType_text_def
      CSharpComplexType_inheritance_def CSharpGroup_content_def CSharpAttributeGroup_content_def
      loop_bodies_same [OF assms] resolvedType_same [OF assms])

lemma agree_fields:
  assumes "agree s t"
  shows "snd s = snd t" "File (fst s) = File (fst t)" "Package (fst s) = Package (fst t)"
    "Field (fst s) = Field (fst t)" "StructAST (fst s) = StructAST (fst t)"
    "list_all2 sameConstruct (ProtoTree (fst s)) (ProtoTree (fst t))"
  using assms by (simp_all add: agree_def)

lemma agree_CSharpComplexType:
  assumes "agree s t"
  shows "agree (CSharpComplexType v s) (CSharpComplexType v t)"
  using agree_fields [OF assms]
  by (simp add: agree_def CSharpComplexType_def Let_def appendClass_def
      contents_same [of "ProtoTree (fst s)" "ProtoTree (fst t)"])

lemma agree_CSharpGroup:
  assumes "agree s t"
  shows "agree (CSharpGroup v s) (CSharpGroup v t)"
  using agree_fields [OF assms]
  by (simp add: agree_def CSharpGroup_def Let_def appendClass_def
      contents_same [of "ProtoTree (fst s)" "ProtoTree (fst t)"])

lemma agree_CSharpAttributeGroup:
  assumes "agree s t"
  shows "agree (CSharpAttributeGroup v s) (CSharpAttributeGroup v t)"
  using agree_fields [OF assms]
  by (simp add: agree_def CSharpAttributeGroup_def Let_def appendClass_def
      contents_same [of "ProtoTree (fst s)" "ProtoTree (fst t)"])

lemma agree_CSharpElement:
  assumes "agree s t"
  shows "agree (CSharpElement v s) (CSharpElement v t)"
  using agree_fields [OF assms]
  by (simp add: agree_def CSharpElement_def Let_def appendClass_def
      resolvedType_same [of "ProtoTree (fst s)" "ProtoTree (fst t)"])

lemma agree_CSharpAttribute:
  assumes "agree s t"
  shows "agree (CSharpAttribute v s) (CSharpAttribute v t)"
  using agree_fields [OF assms]
  by (simp add: agree_def CSharpAttribute_def Let_def appendClass_def
      resolvedType_same [of "ProtoTree (fst s)" "ProtoTree (fst t)"])

lemma agree_CSharpSimpleType:
  assumes "agree s t"
    and "distinct (map fst (MemberTypes v))" and "distinct (map fst ms)"
    and "set (MemberTypes v) = set ms"
  shows "agree (CSharpSimpleType v s) (CSharpSimpleType (v\<lparr>MemberTypes := ms\<rparr>) t)"
proof -
  have sorted: "toSortedPairs ms = toSortedPairs (MemberTypes v)"
    using assms(2-4) by (intro toSortedPairs_order_independent) simp_all
  have empty: "(ms = []) = (MemberTypes v = [])"
    using assms(4) by (metis set_empty)
  show ?thesis
    using agree_fields [OF assms(1)]
    by (simp add: agree_def CSharpSimpleType_def Let_def appendClass_def sorted empty
        resolvedType_same [of "ProtoTree (fst s)" "ProtoTree (fst t)"]
        loop_bodies_same [of "ProtoTree (fst s)" "ProtoTree (fst t)"])
qed

lemma agree_callFuncByName:
  assumes "agree s t" and "sameConstruct c d"
  shows "agree (callFuncByName c s) (callFuncByName d t)"
proof (cases c)
  case (SimpleTypeP v)
  with assms(2) obtain w where d: "d = SimpleTypeP w" by (cases d) auto
  with SimpleTypeP assms(2) have w: "w = v\<lparr>MemberTypes := MemberTypes w\<rparr>"
    and "distinct (map fst (MemberTypes v))" "distinct (map fst (MemberTypes w))"
    "set (MemberTypes v) = set (MemberTypes w)"
    by simp_all
  then have "agree (CSharpSimpleType v s) (CSharpSimpleType (v\<lparr>MemberTypes := MemberTypes w\<rparr>) t)"
    using assms(1) by (intro agree_CSharpSimpleType)
  with w SimpleTypeP d show ?thesis by simp
qed (use assms in \<open>auto intro: agree_CSharpComplexType agree_CSharpGroup
      agree_CSharpAttributeGroup agree_CSharpElement agree_CSharpAttribute\<close>)

lemma agree_foldl:
  assumes "list_all2 sameConstruct cs ds" and "agree s t"
  shows "agree (foldl (\<lambda>s ele. callFuncByName ele s) s cs)
               (foldl (\<lambda>s ele. callFuncByName ele s) t ds)"
  using assms
proof (induction cs ds arbitrary: s t rule: list_all2_induct)
  case Nil
  then show ?case by simp
next
  case (Cons c cs d ds)
  then show ?case by (simp add: agree_callFuncByName)
qed

lemma GenCSharp_agree:
  assumes "agree (g, Map.empty) (h, Map.empty)"
  shows "returned (GenCSharp env g c) = returned (GenCSharp env h d) \<and>
         files (GenCSharp env g c) = files (GenCSharp env h d) \<and>
         agree (generator (GenCSharp env g c), nameCount (GenCSharp env g c))
               (generator (GenCSharp env h d), nameCount (GenCSharp env h d))"
proof -
  let ?s = "foldl (\<lambda>s ele. callFuncByName ele s) (g, Map.empty) (ProtoTree g)"
  let ?t = "foldl (\<lambda>s ele. callFuncByName ele s) (h, Map.empty) (ProtoTree h)"
  have "list_all2 sameConstruct (ProtoTree g) (ProtoTree h)"
    using assms by (simp add: agree_def)
  then have a: "agree ?s ?t"
    using assms by (rule agree_foldl)
  have "agree (fst ?s, snd ?s) (fst ?t, snd ?t)"
    using a by simp
  with agree_fields [OF a] show ?thesis
    by (simp add: GenCSharp_def Let_def split: option.split)
qed

text \<open>
  C9. The output of a run is a function of the tree, the file name and the namespace.
  Two runs on the same constructs, started with the same \<open>Field\<close> and \<open>StructAST\<close> and
  answered alike by the file system, return the same error, write the same bytes to the same
  file and leave the same declarations, cache and counter: whatever the package-level
  counter holds when a run starts, and in whatever order the member map of each union is
  visited.
\<close>

theorem GenCSharp_deterministic:
  assumes "list_all2 sameConstruct tree tree'"
  shows "returned (GenCSharp env (gen\<lparr>ProtoTree := tree\<rparr>) cnt) =
           returned (GenCSharp env (gen\<lparr>ProtoTree := tree'\<rparr>) cnt') \<and>
         files (GenCSharp env (gen\<lparr>ProtoTree := tree\<rparr>) cnt) =
           files (GenCSharp env (gen\<lparr>ProtoTree := tree'\<rparr>) cnt') \<and>
         Field (generator (GenCSharp env (gen\<lparr>ProtoTree := tree\<rparr>) cnt)) =
           Field (generator (GenCSharp env (gen\<lparr>ProtoTree := tree'\<rparr>) cnt')) \<and>
         StructAST (generator (GenCSharp env (gen\<lparr>ProtoTree := tree\<rparr>) cnt)) =
           StructAST (generator (GenCSharp env (gen\<lparr>ProtoTree := tree'\<rparr>) cnt')) \<and>
         nameCount (GenCSharp env (gen\<lparr>ProtoTree := tree\<rparr>) cnt) =
           nameCount (GenCSharp env (gen\<lparr>ProtoTree := tree'\<rparr>) cnt')"
proof -
  have "agree (gen\<lparr>ProtoTree := tree\<rparr>, Map.empty) (gen\<lparr>ProtoTree := tree'\<rparr>, Map.empty)"
    using assms by (simp add: agree_def)
  from GenCSharp_agree [OF this, of env cnt cnt'] show ?thesis
    by (simp add: agree_def)
qed

theorem GenCSharp_deterministic_witness:
  "list_all2 sameConstruct
     [SimpleTypeP color, ComplexTypeP person]
     [SimpleTypeP (color\<lparr>MemberTypes := [(''hex'', ''string''), (''red'', [])]\<rparr>),
      ComplexTypeP person] \<and>
   files (GenCSharp workingDisk
            (newGenerator [SimpleTypeP color, ComplexTypeP person]) Map.empty) =
   files (GenCSharp workingDisk
            (newGenerator
               [SimpleTypeP (color\<lparr>MemberTypes := [(''hex'', ''string''), (''red'', [])]\<rparr>),
                ComplexTypeP person])
            [''Color'' \<mapsto> 7, ''Person'' \<mapsto> 2])"
proof -
  have h: "list_all2 sameConstruct
     [SimpleTypeP color, ComplexTypeP person]
     [SimpleTypeP (color\<lparr>MemberTypes := [(''hex'', ''string''), (''red'', [])]\<rparr>),
      ComplexTypeP person]"
    by (auto simp: color_def)
  have n: "newGenerator t = (newGenerator [])\<lparr>ProtoTree := t\<rparr>" for t
    by (simp add: newGenerator_def)
  from GenCSharp_deterministic [OF h, of workingDisk "newGenerator []" Map.empty
      "[''Color'' \<mapsto> 7, ''Person'' \<mapsto> 2]"] h
  show ?thesis
    unfolding n [of "[SimpleTypeP color, ComplexTypeP person]"]
      n [of "[SimpleTypeP (color\<lparr>MemberTypes := [(''hex'', ''string''), (''red'', [])]\<rparr>),
              ComplexTypeP person]"]
    by blast
qed

end
